theory Spec2Isabelle
  imports Main "HOL-Library.AList"
begin

section \<open>Python strings and values\<close>

text \<open>
  A Python \<open>str\<close> is a sequence of Unicode code points; it is modelled as a list of
  natural numbers, so that slicing (\<open>text[:10000]\<close>, \<open>user_input[4:]\<close>) counts what
  Python counts. \<open>asc\<close> embeds an ASCII literal.
\<close>

type_synonym pystr = "nat list"

definition asc :: "string \<Rightarrow> pystr" where
  "asc s = map of_char s"

text \<open>The apostrophe and the line feed, which the messages of the program contain.\<close>

definition apos :: pystr where
  "apos = [39]"

definition nl :: pystr where
  "nl = [10]"

text \<open>
  The characters \<open>str.strip()\<close> and \<open>str.split()\<close> treat as whitespace
  (CPython's \<open>Py_UNICODE_ISSPACE\<close>).
\<close>

definition isspace :: "nat \<Rightarrow> bool" where
  "isspace c =
     ((9 \<le> c \<and> c \<le> 13) \<or> (28 \<le> c \<and> c \<le> 32) \<or> c = 133 \<or> c = 160 \<or> c = 5760 \<or>
      (8192 \<le> c \<and> c \<le> 8202) \<or> c = 8232 \<or> c = 8233 \<or> c = 8239 \<or> c = 8287 \<or>
      c = 12288)"

definition strip :: "pystr \<Rightarrow> pystr" where
  "strip s = rev (dropWhile isspace (rev (dropWhile isspace s)))"

text \<open>\<open>s.split(maxsplit=n)\<close>: runs of whitespace separate, at most \<open>n\<close> splits.\<close>

fun split_ws :: "nat \<Rightarrow> pystr \<Rightarrow> pystr list" where
  "split_ws 0 s = (let s' = dropWhile isspace s in if s' = [] then [] else [s'])"
| "split_ws (Suc n) s =
     (let s' = dropWhile isspace s in
      if s' = [] then []
      else takeWhile (\<lambda>c. \<not> isspace c) s' # split_ws n (dropWhile (\<lambda>c. \<not> isspace c) s'))"

definition startswith :: "pystr \<Rightarrow> pystr \<Rightarrow> bool" where
  "startswith s p = (take (length p) s = p)"

definition endswith :: "pystr \<Rightarrow> pystr \<Rightarrow> bool" where
  "endswith s p = (length p \<le> length s \<and> drop (length s - length p) s = p)"

text \<open>Decimal rendering of a length, as an f-string prints it.\<close>

function str_nat :: "nat \<Rightarrow> pystr" where
  "str_nat n = (if n < 10 then [48 + n] else str_nat (n div 10) @ [48 + n mod 10])"
  by pat_completeness auto
termination
  by (relation "measure id") auto

declare str_nat.simps [simp del]

text \<open>\<open>os.path.join\<close> of \<open>posixpath\<close>, for two components.\<close>

definition path_join :: "pystr \<Rightarrow> pystr \<Rightarrow> pystr" where
  "path_join a b =
     (if startswith b (asc ''/'') then b
      else if a = [] \<or> endswith a (asc ''/'') then a @ b
      else a @ asc ''/'' @ b)"

text \<open>The values \<open>json.load\<close> returns. A dict keeps its insertion order.\<close>

datatype pyval =
    PyNone
  | PyBool bool
  | PyInt int
  | PyFloat pystr
  | PyStr pystr
  | PyList "pyval list"
  | PyDict "(pystr \<times> pyval) list"

fun is_dict :: "pyval \<Rightarrow> bool" where
  "is_dict (PyDict kvs) = True"
| "is_dict v = False"

fun type_name :: "pyval \<Rightarrow> pystr" where
  "type_name PyNone = asc ''NoneType''"
| "type_name (PyBool b) = asc ''bool''"
| "type_name (PyInt i) = asc ''int''"
| "type_name (PyFloat f) = asc ''float''"
| "type_name (PyStr s) = asc ''str''"
| "type_name (PyList xs) = asc ''list''"
| "type_name (PyDict kvs) = asc ''dict''"

section \<open>Exceptions\<close>

text \<open>
  The exception classes the program can meet, each a subclass of \<open>Exception\<close>.
  \<open>JSONDecodeError\<close> and \<open>UnicodeDecodeError\<close> are subclasses of \<open>ValueError\<close>;
  \<open>FileNotFoundError\<close> is a subclass of \<open>OSError\<close>; \<open>RuntimeError\<close> stands for
  whatever else a library raises. An exception carries its message (\<open>str(e)\<close>).
\<close>

datatype exn_class =
    FileNotFoundError
  | OSError
  | JSONDecodeError
  | UnicodeDecodeError
  | ValueError
  | AttributeError
  | EOFError
  | RuntimeError

datatype exn = Exn exn_class pystr

fun exn_cls :: "exn \<Rightarrow> exn_class" where
  "exn_cls (Exn c m) = c"

fun exn_msg :: "exn \<Rightarrow> pystr" where
  "exn_msg (Exn c m) = m"

text \<open>\<open>except (json.JSONDecodeError, ValueError, UnicodeDecodeError)\<close>\<close>

fun caught_by_validate :: "exn_class \<Rightarrow> bool" where
  "caught_by_validate JSONDecodeError = True"
| "caught_by_validate UnicodeDecodeError = True"
| "caught_by_validate ValueError = True"
| "caught_by_validate c = False"

text \<open>\<open>data.get(key, default)\<close>: only a dict has the method.\<close>

definition py_get :: "pyval \<Rightarrow> pystr \<Rightarrow> pyval \<Rightarrow> exn + pyval" where
  "py_get d k dflt =
     (case d of
        PyDict kvs \<Rightarrow> (case map_of kvs k of Some v \<Rightarrow> Inr v | None \<Rightarrow> Inr dflt)
      | _ \<Rightarrow> Inl (Exn AttributeError
                 (apos @ type_name d @ apos @ asc '' object has no attribute '' @
                  apos @ asc ''get'' @ apos)))"

section \<open>The world outside the program\<close>

text \<open>
  The file \<open>formulas.json\<close>, seen through \<open>open\<close> and \<open>json.load\<close>: absent, present
  with a content on which reading or parsing raises, or present with a content that
  parses to a value.
\<close>

datatype file_state =
    Absent
  | Unloadable exn
  | Json pyval

text \<open>
  What \<open>open(file, 'w')\<close> followed by \<open>json.dump\<close> does: it succeeds; or \<open>open\<close>
  raises and the file is as before; or the file is truncated and the dump raises on the
  way, which leaves a content on which a later load raises the second exception.
\<close>

datatype write_result =
    WriteOk
  | OpenFails exn
  | DumpFails exn exn

text \<open>
  A page of an opened PDF, as the loop over the document meets it: loading the page
  raises, or \<open>get_text\<close> raises, or \<open>get_text\<close> returns the text.
\<close>

datatype page =
    LoadError exn
  | TextError exn
  | Text pystr

text \<open>
  The libraries and the operating system, as parameters. \<open>generate\<close> gets the number of
  earlier calls, so that the model need not answer the same prompt twice alike;
  \<open>write_outcome\<close> gets the number of earlier writes. \<open>repr_other\<close> is \<open>str()\<close> of a
  value that is not a \<open>str\<close>.
\<close>

record env =
  lower :: "pystr \<Rightarrow> pystr"
  model_load :: "exn option"
  generate :: "nat \<Rightarrow> pystr \<Rightarrow> exn + pystr"
  write_outcome :: "nat \<Rightarrow> write_result"
  path_exists :: "pystr \<Rightarrow> bool"
  fitz_open :: "pystr \<Rightarrow> exn + page list"
  listdir :: "pystr \<Rightarrow> exn + pystr list"
  repr_other :: "pyval \<Rightarrow> pystr"

datatype level = INFO | WARNING | ERROR

text \<open>
  The state of the process and what it has done so far: the bot's \<open>formulas_db\<close>, the
  file on disk, the number of writes attempted, the prompts sent to the model, the paths
  handed to \<open>fitz.open\<close>, the log records and the printed lines.
\<close>

record world =
  formulas_db :: "(pystr \<times> pyval) list"
  disk :: file_state
  writes :: nat
  model_calls :: "pystr list"
  opened :: "pystr list"
  logged :: "(level \<times> pystr) list"
  stdout :: "pystr list"

definition logging :: "level \<Rightarrow> pystr \<Rightarrow> world \<Rightarrow> world" where
  "logging l m w = w\<lparr>logged := logged w @ [(l, m)]\<rparr>"

definition print :: "pystr \<Rightarrow> world \<Rightarrow> world" where
  "print s w = w\<lparr>stdout := stdout w @ [s]\<rparr>"

definition py_str :: "env \<Rightarrow> pyval \<Rightarrow> pystr" where
  "py_str E v = (case v of PyStr s \<Rightarrow> s | _ \<Rightarrow> repr_other E v)"

definition formulas_file :: pystr where
  "formulas_file = asc ''formulas.json''"

definition read_json :: "file_state \<Rightarrow> exn + pyval" where
  "read_json f =
     (case f of
        Absent \<Rightarrow> Inl (Exn FileNotFoundError
                    (asc ''[Errno 2] No such file or directory: '' @ apos @ formulas_file @ apos))
      | Unloadable e \<Rightarrow> Inl e
      | Json v \<Rightarrow> Inr v)"

definition write_json :: "env \<Rightarrow> pyval \<Rightarrow> world \<Rightarrow> exn option \<times> world" where
  "write_json E doc w =
     (case write_outcome E (writes w) of
        WriteOk \<Rightarrow> (None, w\<lparr>disk := Json doc, writes := Suc (writes w)\<rparr>)
      | OpenFails e \<Rightarrow> (Some e, w\<lparr>writes := Suc (writes w)\<rparr>)
      | DumpFails e e' \<Rightarrow> (Some e, w\<lparr>disk := Unloadable e', writes := Suc (writes w)\<rparr>))"

section \<open>The formula store\<close>

definition default_data :: pyval where
  "default_data = PyDict [(asc ''formulas'', PyDict [])]"

text \<open>The \<open>try\<close> block of \<open>validate_and_fix_json\<close>, up to its \<open>return data\<close>.\<close>

definition load_checked :: "file_state \<Rightarrow> exn + pyval" where
  "load_checked f =
     (case read_json f of
        Inl e \<Rightarrow> Inl e
      | Inr data \<Rightarrow>
          (case py_get data (asc ''formulas'') (PyDict []) of
             Inl e \<Rightarrow> Inl e
           | Inr v \<Rightarrow>
               if \<not> is_dict v
               then Inl (Exn ValueError
                      (asc ''Invalid structure: '' @ apos @ asc ''formulas'' @ apos @
                       asc '' key is not a dictionary.''))
               else Inr data))"

definition validate_and_fix_json :: "env \<Rightarrow> world \<Rightarrow> (exn + pyval) \<times> world" where
  "validate_and_fix_json E w =
     (case load_checked (disk w) of
        Inr data \<Rightarrow> (Inr data, logging INFO (asc ''JSON file is valid.'') w)
      | Inl e \<Rightarrow>
          if caught_by_validate (exn_cls e) then
            (let w1 = logging ERROR
                        (asc ''Invalid JSON file: '' @ exn_msg e @ asc ''. Resetting to default.'') w
             in case write_json E default_data w1 of
                  (Some e', w2) \<Rightarrow> (Inl e', w2)
                | (None, w2) \<Rightarrow> (Inr default_data, w2))
          else (Inl e, w))"

definition init_formulas_db :: "env \<Rightarrow> world \<Rightarrow> exn option \<times> world" where
  "init_formulas_db E w =
     (case validate_and_fix_json E w of
        (Inl e, w1) \<Rightarrow> (Some e, w1)
      | (Inr data, w1) \<Rightarrow>
          (case py_get data (asc ''formulas'') (PyDict []) of
             Inl e \<Rightarrow> (Some e, w1)
           | Inr (PyDict kvs) \<Rightarrow> (None, w1\<lparr>formulas_db := kvs\<rparr>)
           | Inr v \<Rightarrow> (Some (Exn RuntimeError (asc ''unreachable'')), w1)))"

text \<open>
  The last case of \<open>init_formulas_db\<close> stands for a \<open>formulas_db\<close> that is not a dict.
  The validation excludes it (lemma \<open>validated_formulas_is_dict\<close> below), so the
  bot's \<open>formulas_db\<close> is modelled as the dict's items.
\<close>

section \<open>The orchestrator\<close>

definition tag_database :: pystr where
  "tag_database = [0x1F4D8] @ asc '' From Database:'' @ nl"

definition tag_new :: pystr where
  "tag_new = [0x1F9E0] @ asc '' New Formula:'' @ nl"

definition tag_pdf :: pystr where
  "tag_pdf = [0x1F4C4] @ asc '' PDF Answer:'' @ nl"

definition tag_error :: pystr where
  "tag_error = [0x274C] @ asc '' Error: ''"

definition formula_prompt :: "pystr \<Rightarrow> pystr" where
  "formula_prompt query =
     asc ''Provide the exact formula for '' @ query @
     asc '' with brief explanation. Use LaTeX math formatting with $$ when appropriate.''"

definition get_formula :: "env \<Rightarrow> pystr \<Rightarrow> world \<Rightarrow> (exn + pystr) \<times> world" where
  "get_formula E query w =
     (let query_lower = lower E query in
      case map_of (formulas_db w) query_lower of
        Some v \<Rightarrow>
          (Inr (tag_database @ py_str E v),
           logging INFO (asc ''Formula for '' @ apos @ query_lower @ apos @
                         asc '' found in database.'') w)
      | None \<Rightarrow>
          (let w1 = logging INFO (asc ''Formula for '' @ apos @ query_lower @ apos @
                                  asc '' not found. Generating...'') w;
               w2 = w1\<lparr>model_calls := model_calls w1 @ [formula_prompt query]\<rparr>
           in case generate E (length (model_calls w1)) (formula_prompt query) of
                Inl e \<Rightarrow> (Inl e, w2)
              | Inr response \<Rightarrow>
                  (let w3 = w2\<lparr>formulas_db :=
                                 AList.update query_lower (PyStr response) (formulas_db w2)\<rparr>;
                       w5 = (case write_json E
                                    (PyDict [(asc ''formulas'', PyDict (formulas_db w3))]) w3 of
                               (None, w4) \<Rightarrow>
                                 logging INFO (asc ''Formula for '' @ apos @ query_lower @ apos @
                                               asc '' saved to formulas.json.'') w4
                             | (Some e, w4) \<Rightarrow>
                                 logging ERROR (asc ''Failed to save formula to file: '' @
                                                exn_msg e) w4)
                   in (Inr (tag_new @ response), w5))))"

text \<open>
  The loop of \<open>query_pdf\<close> over \<open>enumerate(doc)\<close>: the page of index 10 is loaded
  before the \<open>break\<close>, its text is not read.
\<close>

fun extract_loop :: "nat \<Rightarrow> page list \<Rightarrow> pystr \<Rightarrow> exn + pystr" where
  "extract_loop i [] text = Inr text"
| "extract_loop i (LoadError e # ps) text = Inl e"
| "extract_loop i (TextError e # ps) text = (if i \<ge> 10 then Inr text else Inl e)"
| "extract_loop i (Text t # ps) text =
     (if i \<ge> 10 then Inr text else extract_loop (Suc i) ps (text @ t))"

definition pdf_prompt :: "pystr \<Rightarrow> pystr \<Rightarrow> pystr" where
  "pdf_prompt text question =
     asc ''Answer based on this document:'' @ nl @ take 10000 text @ nl @ nl @
     asc ''Question: '' @ question @ nl @ asc ''Answer:''"

text \<open>The handler \<open>except Exception as e\<close> of \<open>query_pdf\<close>.\<close>

definition pdf_failed :: "exn \<Rightarrow> world \<Rightarrow> pystr \<times> world" where
  "pdf_failed e w =
     (tag_error @ exn_msg e,
      logging ERROR (asc ''Error while processing PDF query: '' @ exn_msg e) w)"

definition query_pdf :: "env \<Rightarrow> pystr \<Rightarrow> pystr \<Rightarrow> world \<Rightarrow> pystr \<times> world" where
  "query_pdf E filename question w =
     (let filepath = path_join (asc ''documents'') filename in
      if \<not> path_exists E filepath then
        (tag_error @ asc ''File '' @ apos @ filename @ apos @ asc '' not found.'',
         logging ERROR (asc ''File '' @ apos @ filename @ apos @ asc '' not found.'') w)
      else
        (let w1 = w\<lparr>opened := opened w @ [filepath]\<rparr> in
         case fitz_open E filepath of
           Inl e \<Rightarrow> pdf_failed e w1
         | Inr doc \<Rightarrow>
             (case extract_loop 0 doc [] of
                Inl e \<Rightarrow> pdf_failed e w1
              | Inr text \<Rightarrow>
                  if strip text = [] then
                    (tag_error @ asc ''The document is empty or unreadable.'',
                     logging WARNING (asc ''The document is empty or unreadable.'') w1)
                  else
                    (let w2 = logging INFO (asc ''Generating response from the model...'') w1;
                         w3 = w2\<lparr>model_calls := model_calls w2 @ [pdf_prompt text question]\<rparr>
                     in case generate E (length (model_calls w2)) (pdf_prompt text question) of
                          Inl e \<Rightarrow> pdf_failed e w3
                        | Inr response \<Rightarrow>
                            (tag_pdf @ response,
                             logging INFO (asc ''Response generated successfully.'') w3)))))"

definition list_files :: "env \<Rightarrow> world \<Rightarrow> pystr list \<times> world" where
  "list_files E w =
     (case listdir E (asc ''documents'') of
        Inl e \<Rightarrow>
          ([], logging ERROR (asc ''Error listing files in '' @ apos @ asc ''documents'' @ apos @
                              asc '' directory: '' @ exn_msg e) w)
      | Inr names \<Rightarrow>
          (let files = filter (\<lambda>f. endswith f (asc ''.pdf'')) names in
           (files, logging INFO (asc ''Found '' @ str_nat (length files) @
                                 asc '' PDF(s) in the documents directory.'') w)))"

section \<open>The command loop\<close>

datatype flow = Continue | Break | Raise exn

definition msg_empty :: pystr where
  "msg_empty = [0x274C] @ asc '' Please enter a command. Type '' @ apos @ asc ''help'' @ apos @
               asc '' for available commands.''"

definition msg_invalid :: pystr where
  "msg_invalid = [0x274C] @ asc '' Invalid command. Type '' @ apos @ asc ''help'' @ apos @
                 asc '' for available commands.''"

definition msg_usage :: pystr where
  "msg_usage = asc ''Usage: pdf filename.pdf '' @ apos @ asc ''your question'' @ apos"

definition print_help :: "world \<Rightarrow> world" where
  "print_help w =
     print (asc ''exit - Quit'')
       (print (asc ''list - Show available PDFs'')
          (print (asc ''pdf <filename> <question> - Query a PDF'')
             (print (asc ''ask <question> - Get a formula'')
                (print (nl @ asc ''Commands:'') w))))"

text \<open>One iteration of \<open>while True\<close>, on the line \<open>input\<close> has returned.\<close>

definition step :: "env \<Rightarrow> pystr \<Rightarrow> world \<Rightarrow> flow \<times> world" where
  "step E line w =
     (let user_input = strip line in
      if user_input = [] then (Continue, print msg_empty w)
      else
        (let w1 = logging INFO (asc ''User input received: '' @ apos @ user_input @ apos) w;
             cmd = lower E user_input
         in if cmd \<in> set [asc ''exit'', asc ''quit''] then
              (Break, logging INFO (asc ''Exiting the bot.'') w1)
            else if cmd = asc ''help'' then (Continue, print_help w1)
            else if cmd = asc ''list'' then
              (case list_files E w1 of
                 (files, w2) \<Rightarrow>
                   (Continue,
                    fold (\<lambda>f. print (asc ''- '' @ f)) files
                      (print (if files \<noteq> [] then nl @ asc ''Available PDFs:''
                              else nl @ asc ''No PDFs found'') w2)))
            else if startswith cmd (asc ''pdf '') then
              (let parts = split_ws 2 user_input in
               if length parts < 3 then (Continue, print msg_usage w1)
               else (case query_pdf E (parts ! 1) (parts ! 2) w1 of
                       (answer, w2) \<Rightarrow> (Continue, print answer w2)))
            else if startswith cmd (asc ''ask '') then
              (case get_formula E (drop 4 user_input) w1 of
                 (Inl e, w2) \<Rightarrow> (Raise e, w2)
               | (Inr answer, w2) \<Rightarrow> (Continue, print answer w2))
            else (Continue, print msg_invalid w1)))"

text \<open>
  How the process ends: \<open>main\<close> returns, \<open>exit(1)\<close> is called, or an exception that
  nothing catches ends it with a traceback.
\<close>

datatype outcome =
    Finished world
  | SystemExit nat world
  | Uncaught exn world

text \<open>
  The loop, over the lines standard input still holds; at the end of input,
  \<open>input\<close> raises \<open>EOFError\<close>.
\<close>

fun command_loop :: "env \<Rightarrow> pystr list \<Rightarrow> world \<Rightarrow> outcome" where
  "command_loop E [] w =
     Uncaught (Exn EOFError (asc ''EOF when reading a line'')) (print (nl @ asc ''You: '') w)"
| "command_loop E (line # rest) w =
     (case step E line (print (nl @ asc ''You: '') w) of
        (Continue, w1) \<Rightarrow> command_loop E rest w1
      | (Break, w1) \<Rightarrow> Finished w1
      | (Raise e, w1) \<Rightarrow> Uncaught e w1)"

text \<open>\<open>StudyBot.__init__\<close>: \<open>Inl\<close> when the process ends there.\<close>

definition StudyBot_init :: "env \<Rightarrow> world \<Rightarrow> outcome + world" where
  "StudyBot_init E w =
     (case model_load E of
        Some e \<Rightarrow>
          Inl (SystemExit 1
                 (logging ERROR (asc ''Failed to load GPT4All model: '' @ exn_msg e) w))
      | None \<Rightarrow>
          (case init_formulas_db E (w\<lparr>formulas_db := []\<rparr>) of
             (Some e, w1) \<Rightarrow> Inl (Uncaught e w1)
           | (None, w1) \<Rightarrow> Inr w1))"

definition main :: "env \<Rightarrow> pystr list \<Rightarrow> world \<Rightarrow> outcome" where
  "main E stdin w =
     (case StudyBot_init E w of
        Inl out \<Rightarrow> out
      | Inr w1 \<Rightarrow>
          command_loop E stdin
            (print ([0x1F50D] @ asc '' AI Study Bot - Type '' @ apos @ asc ''help'' @ apos @
                    asc '' for commands'') w1))"

text \<open>The process before it has done anything, with the given file on disk.\<close>

definition start :: "file_state \<Rightarrow> world" where
  "start f = \<lparr>formulas_db = [], disk = f, writes = 0, model_calls = [], opened = [],
              logged = [], stdout = []\<rparr>"

section \<open>An example environment\<close>

text \<open>
  \<open>str.lower\<close> restricted to ASCII, and an environment in which everything succeeds:
  the model answers every prompt with \<open>R = V/I\<close>, the documents directory holds three
  files, of which \<open>notes.pdf\<close> is a one-page PDF. The theorems below hold for every
  environment; this one instantiates them.
\<close>

definition ascii_lower :: "pystr \<Rightarrow> pystr" where
  "ascii_lower s = map (\<lambda>c. if 65 \<le> c \<and> c \<le> 90 then c + 32 else c) s"

definition demo_env :: env where
  "demo_env =
     \<lparr>lower = ascii_lower, model_load = None,
      generate = (\<lambda>n p. Inr (asc ''R = V/I'')),
      write_outcome = (\<lambda>n. WriteOk),
      path_exists = (\<lambda>p. p = asc ''documents/notes.pdf''),
      fitz_open = (\<lambda>p. Inr [Text (asc ''Ohm: V = I R'')]),
      listdir = (\<lambda>d. Inr [asc ''notes.pdf'', asc ''NOTES.PDF'', asc ''todo.txt'']),
      repr_other = (\<lambda>v. [])\<rparr>"

section \<open>Sequences of calls\<close>

text \<open>
  The calls of the bot's methods that the command loop can make, and a run of several of
  them in a row; \<open>None\<close> when one of them raises, which ends the process.
\<close>

datatype call = Ask pystr | Pdf pystr pystr | ListFiles

fun run_calls :: "env \<Rightarrow> call list \<Rightarrow> world \<Rightarrow> world option" where
  "run_calls E [] w = Some w"
| "run_calls E (Ask q # cs) w =
     (case get_formula E q w of
        (Inl e, w1) \<Rightarrow> None
      | (Inr answer, w1) \<Rightarrow> run_calls E cs w1)"
| "run_calls E (Pdf f q # cs) w = run_calls E cs (snd (query_pdf E f q w))"
| "run_calls E (ListFiles # cs) w = run_calls E cs (snd (list_files E w))"

section \<open>Letter case\<close>

text \<open>
  Two characters are the same letter when they are equal or one is an ASCII capital and
  the other its small letter; two strings are equal up to letter case, in this ASCII
  sense, when they are so character by character. \<open>upper_latin\<close> is \<open>str.upper\<close> on
  strings of ASCII characters and the dotless i (U+0131), whose capital is \<open>I\<close>; on
  those strings \<open>str.lower\<close> is \<open>ascii_lower\<close>, the dotless i being a small letter.
\<close>

definition same_letter :: "nat \<Rightarrow> nat \<Rightarrow> bool" where
  "same_letter c d =
     (c = d \<or> (65 \<le> c \<and> c \<le> 90 \<and> d = c + 32) \<or> (65 \<le> d \<and> d \<le> 90 \<and> c = d + 32))"

definition equal_up_to_case :: "pystr \<Rightarrow> pystr \<Rightarrow> bool" where
  "equal_up_to_case s t = list_all2 same_letter s t"

definition upper_latin :: "pystr \<Rightarrow> pystr" where
  "upper_latin s =
     map (\<lambda>c. if 97 \<le> c \<and> c \<le> 122 then c - 32 else if c = 305 then 73 else c) s"

section \<open>Strings\<close>

lemma endswith_iff: "endswith s p \<longleftrightarrow> (\<exists>stem. s = stem @ p)"
  unfolding endswith_def
  by (metis add_diff_cancel_right' append_eq_conv_conj append_take_drop_id
    diff_le_self length_append length_drop)

lemma strip_empty_iff: "strip s = [] \<longleftrightarrow> list_all isspace s"
proof -
  have "strip s = [] \<longleftrightarrow> dropWhile isspace (rev (dropWhile isspace s)) = []"
    by (simp add: strip_def)
  also have "\<dots> \<longleftrightarrow> dropWhile isspace s = []"
  proof
    assume a: "dropWhile isspace (rev (dropWhile isspace s)) = []"
    show "dropWhile isspace s = []"
    proof (rule ccontr)
      assume n: "dropWhile isspace s \<noteq> []"
      then have "\<not> isspace (hd (dropWhile isspace s))"
        by (rule hd_dropWhile)
      moreover have "hd (dropWhile isspace s) \<in> set (rev (dropWhile isspace s))"
        using n by simp
      ultimately show False
        using a by (auto simp: dropWhile_eq_Nil_conv)
    qed
  next
    assume e: "dropWhile isspace s = []"
    show "dropWhile isspace (rev (dropWhile isspace s)) = []" unfolding e by simp
  qed
  also have "\<dots> \<longleftrightarrow> list_all isspace s"
    by (simp add: dropWhile_eq_Nil_conv list_all_iff)
  finally show ?thesis .
qed

section \<open>The formula store at startup\<close>

text \<open>
  What \<open>validate_and_fix_json\<close> returns has a dict under \<open>formulas\<close>, or no such key:
  \<open>init_formulas_db\<close> always stores a dict.
\<close>

lemma is_dict_iff: "is_dict v \<longleftrightarrow> (\<exists>kvs. v = PyDict kvs)"
  by (cases v) simp_all

lemma load_checked_formulas_is_dict:
  assumes "load_checked f = Inr data"
  shows "\<exists>kvs. py_get data (asc ''formulas'') (PyDict []) = Inr (PyDict kvs)"
proof -
  from assms obtain v where "py_get data (asc ''formulas'') (PyDict []) = Inr v" and "is_dict v"
    by (auto simp: load_checked_def split: sum.splits if_splits)
  then show ?thesis by (auto simp: is_dict_iff)
qed

lemma validated_formulas_is_dict:
  assumes "validate_and_fix_json E w = (Inr data, w1)"
  shows "\<exists>kvs. py_get data (asc ''formulas'') (PyDict []) = Inr (PyDict kvs)"
proof (cases "load_checked (disk w)")
  case (Inr d)
  with assms have "data = d" by (simp add: validate_and_fix_json_def)
  with Inr show ?thesis by (simp add: load_checked_formulas_is_dict)
next
  case (Inl e)
  with assms have "data = default_data"
    by (auto simp: validate_and_fix_json_def Let_def write_json_def
             split: if_splits write_result.splits)
  then show ?thesis by (simp add: default_data_def py_get_def)
qed

text \<open>
  The cases in which the store is reset: loading raises one of the three classes the
  handler names (a parse or decoding failure), or the document is a dict whose
  \<open>formulas\<close> is present and not a dict. When the write succeeds, the file holds the
  default document and the store is empty.
\<close>

lemma corrupt_store_reset:
  assumes bad: "(disk w = Unloadable e \<and> caught_by_validate (exn_cls e))
                \<or> (disk w = Json (PyDict kvs) \<and> map_of kvs (asc ''formulas'') = Some v \<and> \<not> is_dict v)"
    and ok: "write_outcome E (writes w) = WriteOk"
  shows "fst (init_formulas_db E w) = None
         \<and> disk (snd (init_formulas_db E w)) = Json default_data
         \<and> formulas_db (snd (init_formulas_db E w)) = []"
proof -
  from bad obtain e' where l: "load_checked (disk w) = Inl e'" and c: "caught_by_validate (exn_cls e')"
    by (auto simp: load_checked_def read_json_def py_get_def)
  show ?thesis
    by (simp add: init_formulas_db_def validate_and_fix_json_def l c Let_def write_json_def ok
          logging_def default_data_def py_get_def)
qed

text \<open>
  Claim C1. If \<open>formulas.json\<close> is absent at process start, the first load creates the
  default document, reports the failure, and the program goes on with an empty store.
  The code does not: \<open>open\<close> raises \<open>FileNotFoundError\<close>, which is an \<open>OSError\<close>
  and none of the three classes \<open>validate_and_fix_json\<close> catches. Whatever the rest of
  the environment and the input, the process ends with that exception uncaught, nothing
  is logged and no file is written.
\<close>

theorem absent_store_ends_startup:
  "main (E\<lparr>model_load := None\<rparr>) stdin (start Absent) =
     Uncaught (Exn FileNotFoundError
                 (asc ''[Errno 2] No such file or directory: '' @ apos @ asc ''formulas.json'' @ apos))
              (start Absent)"
  by (simp add: main_def StudyBot_init_def init_formulas_db_def validate_and_fix_json_def
      load_checked_def read_json_def start_def formulas_file_def)

text \<open>
  Claim C2. A store file that does not parse, or whose top-level value is not an object
  with a \<open>formulas\<close> field, or whose \<open>formulas\<close> field is missing or not a mapping,
  is replaced on disk by the default document and leaves the store empty.
  The code does so when parsing fails and when \<open>formulas\<close> is present and not a dict.
  On a top-level value that is not a dict (here the list \<open>[]\<close>), \<open>data.get\<close> raises
  \<open>AttributeError\<close>, which is not caught: startup ends and the file is as before. On a
  dict without the key (here \<open>{}\<close>), the default of \<open>data.get\<close> passes the check, and
  the file is not written.
\<close>

theorem malformed_store_not_reset:
  "init_formulas_db E (start (Json (PyList []))) =
     (Some (Exn AttributeError
              (apos @ asc ''list'' @ apos @ asc '' object has no attribute '' @
               apos @ asc ''get'' @ apos)),
      start (Json (PyList [])))
   \<and> fst (init_formulas_db E (start (Json (PyDict [])))) = None
   \<and> disk (snd (init_formulas_db E (start (Json (PyDict []))))) = Json (PyDict [])
   \<and> writes (snd (init_formulas_db E (start (Json (PyDict []))))) = 0
   \<and> Json (PyDict []) \<noteq> Json default_data"
  by (simp add: init_formulas_db_def validate_and_fix_json_def load_checked_def read_json_def
      py_get_def start_def logging_def default_data_def)

section \<open>Formula queries\<close>

text \<open>
  Claim C9. A call of \<open>get_formula\<close> that hits the cache writes nothing: the file on
  disk, the number of writes and the in-memory formula map are as before, no prompt is
  sent to the model, and the answer is the stored value under the database tag.
\<close>

theorem get_formula_hit_no_write:
  assumes "map_of (formulas_db w) (lower E q) = Some v"
  shows "fst (get_formula E q w) = Inr (tag_database @ py_str E v)
         \<and> disk (snd (get_formula E q w)) = disk w
         \<and> writes (snd (get_formula E q w)) = writes w
         \<and> formulas_db (snd (get_formula E q w)) = formulas_db w
         \<and> model_calls (snd (get_formula E q w)) = model_calls w"
  using assms by (simp add: get_formula_def Let_def logging_def)

theorem get_formula_hit_no_write_witness:
  "map_of [(asc ''ohm'', PyStr (asc ''V = I R''))] (lower demo_env (asc ''OHM'')) =
     Some (PyStr (asc ''V = I R''))
   \<and> fst (get_formula demo_env (asc ''OHM'')
             ((start Absent)\<lparr>formulas_db := [(asc ''ohm'', PyStr (asc ''V = I R''))]\<rparr>)) =
       Inr (tag_database @ asc ''V = I R'')
   \<and> disk (snd (get_formula demo_env (asc ''OHM'')
             ((start Absent)\<lparr>formulas_db := [(asc ''ohm'', PyStr (asc ''V = I R''))]\<rparr>))) =
       Absent"
proof -
  have h: "map_of (formulas_db ((start Absent)\<lparr>formulas_db := [(asc ''ohm'', PyStr (asc ''V = I R''))]\<rparr>))
             (lower demo_env (asc ''OHM'')) = Some (PyStr (asc ''V = I R''))"
    by (simp add: demo_env_def ascii_lower_def asc_def)
  show ?thesis
    using get_formula_hit_no_write [OF h] h
    by (simp add: py_str_def start_def)
qed

text \<open>
  Claim C6. On a cache miss, when the model has answered and writing the store to disk
  fails (opening the file or dumping into it raises), \<open>get_formula\<close> still returns the
  answer under the new-formula tag, the entry is in the in-memory store under the
  lowercased key, and the last log record is the error report of the failed write.
\<close>

theorem get_formula_write_failure_caught:
  assumes miss: "map_of (formulas_db w) (lower E q) = None"
    and gen: "generate E (length (model_calls w)) (formula_prompt q) = Inr r"
    and fail: "write_outcome E (writes w) = OpenFails e \<or> write_outcome E (writes w) = DumpFails e e'"
  shows "fst (get_formula E q w) = Inr (tag_new @ r)
         \<and> map_of (formulas_db (snd (get_formula E q w))) (lower E q) = Some (PyStr r)
         \<and> last (logged (snd (get_formula E q w))) =
             (ERROR, asc ''Failed to save formula to file: '' @ exn_msg e)"
  using assms
  by (auto simp add: get_formula_def Let_def logging_def write_json_def update_conv')

theorem get_formula_write_failure_caught_witness:
  "fst (get_formula (demo_env\<lparr>write_outcome := \<lambda>n. OpenFails (Exn OSError (asc ''denied''))\<rparr>)
          (asc ''Ohm'') (start Absent)) = Inr (tag_new @ asc ''R = V/I'')
   \<and> map_of (formulas_db (snd (get_formula
          (demo_env\<lparr>write_outcome := \<lambda>n. OpenFails (Exn OSError (asc ''denied''))\<rparr>)
          (asc ''Ohm'') (start Absent)))) (asc ''ohm'') = Some (PyStr (asc ''R = V/I''))
   \<and> disk (snd (get_formula
          (demo_env\<lparr>write_outcome := \<lambda>n. OpenFails (Exn OSError (asc ''denied''))\<rparr>)
          (asc ''Ohm'') (start Absent))) = Absent"
proof -
  let ?E = "demo_env\<lparr>write_outcome := \<lambda>n. OpenFails (Exn OSError (asc ''denied''))\<rparr>"
  have l: "lower ?E (asc ''Ohm'') = asc ''ohm''"
    by (simp add: demo_env_def ascii_lower_def asc_def)
  have m: "map_of (formulas_db (start Absent)) (lower ?E (asc ''Ohm'')) = None"
    by (simp add: start_def)
  have g: "generate ?E (length (model_calls (start Absent))) (formula_prompt (asc ''Ohm'')) =
             Inr (asc ''R = V/I'')"
    by (simp add: demo_env_def)
  have f: "write_outcome ?E (writes (start Absent)) = OpenFails (Exn OSError (asc ''denied''))
           \<or> write_outcome ?E (writes (start Absent)) =
               DumpFails (Exn OSError (asc ''denied'')) (Exn OSError (asc ''denied''))"
    by simp
  have d: "disk (snd (get_formula ?E (asc ''Ohm'') (start Absent))) = Absent"
    by (simp add: get_formula_def Let_def logging_def write_json_def start_def demo_env_def)
  show ?thesis
    using get_formula_write_failure_caught [OF m g f] l d by simp
qed

text \<open>
  Claim C7. After startup no error ends the process: also when the model raises on a
  formula query, the loop goes on to the next line.
  The code does not: \<open>get_formula\<close> calls \<open>generate\<close> outside any \<open>try\<close> (unlike
  \<open>query_pdf\<close>), and the loop catches nothing. On the line \<open>ask ohm\<close>, with no entry
  stored and a model that raises \<open>e\<close>, the iteration raises \<open>e\<close> and the process ends
  with it uncaught, whatever lines follow.
\<close>

theorem ask_model_failure_ends_process:
  "fst (step (E\<lparr>lower := ascii_lower, generate := \<lambda>n p. Inl e\<rparr>) (asc ''ask ohm'')
          (w\<lparr>formulas_db := []\<rparr>)) = Raise e
   \<and> (\<exists>w'. command_loop (E\<lparr>lower := ascii_lower, generate := \<lambda>n p. Inl e\<rparr>)
              (asc ''ask ohm'' # rest) (w\<lparr>formulas_db := []\<rparr>) = Uncaught e w')"
proof -
  let ?E = "E\<lparr>lower := ascii_lower, generate := \<lambda>n p. Inl e\<rparr>"
  have s: "strip (asc ''ask ohm'') = asc ''ask ohm''"
    by (simp add: strip_def asc_def isspace_def)
  have l: "ascii_lower (asc ''ask ohm'') = asc ''ask ohm''"
    by (simp add: ascii_lower_def asc_def)
  have st: "\<And>w0. formulas_db w0 = [] \<Longrightarrow> fst (step ?E (asc ''ask ohm'') w0) = Raise e"
    by (simp add: step_def s l Let_def get_formula_def logging_def startswith_def)
       (simp add: asc_def)
  show ?thesis
    using st [of "w\<lparr>formulas_db := []\<rparr>"] st [of "print (nl @ asc ''You: '') (w\<lparr>formulas_db := []\<rparr>)"]
    by (auto simp: print_def split: prod.splits flow.splits)
qed

section \<open>Listing the documents\<close>

text \<open>
  Claim C10. \<open>list_files\<close> matches the suffix case-sensitively: when the directory can
  be listed, a name is in the result exactly when it is in the directory and ends with
  the lowercase \<open>.pdf\<close>; \<open>NOTES.PDF\<close> is never in the result.
\<close>

theorem list_files_suffix_case_sensitive:
  assumes "listdir E (asc ''documents'') = Inr names"
  shows "(f \<in> set (fst (list_files E w)) \<longleftrightarrow> f \<in> set names \<and> (\<exists>stem. f = stem @ asc ''.pdf''))
         \<and> asc ''NOTES.PDF'' \<notin> set (fst (list_files E w))"
proof -
  have fs: "fst (list_files E w) = filter (\<lambda>f. endswith f (asc ''.pdf'')) names"
    using assms by (simp add: list_files_def Let_def)
  have "\<not> endswith (asc ''NOTES.PDF'') (asc ''.pdf'')"
    by (simp add: endswith_def asc_def)
  with fs show ?thesis
    by (auto simp: endswith_iff)
qed

theorem list_files_suffix_case_sensitive_witness:
  "fst (list_files demo_env (start Absent)) = [asc ''notes.pdf'']
   \<and> asc ''NOTES.PDF'' \<in> set [asc ''notes.pdf'', asc ''NOTES.PDF'', asc ''todo.txt'']
   \<and> asc ''NOTES.PDF'' \<notin> set (fst (list_files demo_env (start Absent)))"
proof -
  have l: "listdir demo_env (asc ''documents'') =
             Inr [asc ''notes.pdf'', asc ''NOTES.PDF'', asc ''todo.txt'']"
    by (simp add: demo_env_def)
  have "fst (list_files demo_env (start Absent)) = [asc ''notes.pdf'']"
    by (simp add: list_files_def demo_env_def endswith_def asc_def Let_def)
  then show ?thesis
    using list_files_suffix_case_sensitive [OF l, of "asc ''NOTES.PDF''" "start Absent"]
    by (simp add: asc_def)
qed

section \<open>What the calls keep\<close>

lemma query_pdf_formulas_db: "formulas_db (snd (query_pdf E f q w)) = formulas_db w"
  by (simp add: query_pdf_def Let_def logging_def pdf_failed_def split: sum.splits)

lemma list_files_formulas_db: "formulas_db (snd (list_files E w)) = formulas_db w"
  by (simp add: list_files_def Let_def logging_def split: sum.splits)

lemma write_json_formulas_db: "formulas_db (snd (write_json E d w)) = formulas_db w"
  by (simp add: write_json_def split: write_result.splits)

lemma get_formula_miss_db:
  assumes "map_of (formulas_db w) (lower E q) = None"
    and "generate E (length (model_calls w)) (formula_prompt q) = Inr r"
  shows "formulas_db (snd (get_formula E q w)) =
           AList.update (lower E q) (PyStr r) (formulas_db w)"
  using assms
  by (simp add: get_formula_def Let_def logging_def write_json_def
           split: write_result.splits)

lemma get_formula_raise_db:
  assumes "map_of (formulas_db w) (lower E q) = None"
    and "generate E (length (model_calls w)) (formula_prompt q) = Inl e"
  shows "formulas_db (snd (get_formula E q w)) = formulas_db w"
  using assms by (simp add: get_formula_def Let_def logging_def)

lemma get_formula_hit_db:
  assumes "map_of (formulas_db w) (lower E q) = Some u"
  shows "formulas_db (snd (get_formula E q w)) = formulas_db w"
  using assms by (simp add: get_formula_def Let_def logging_def)

lemma get_formula_keeps_entry:
  assumes "map_of (formulas_db w) k = Some v"
  shows "map_of (formulas_db (snd (get_formula E q w))) k = Some v"
proof (cases "map_of (formulas_db w) (lower E q)")
  case (Some u)
  then show ?thesis
    using assms by (simp add: get_formula_hit_db)
next
  case None
  with assms have ne: "k \<noteq> lower E q" by auto
  show ?thesis
  proof (cases "generate E (length (model_calls w)) (formula_prompt q)")
    case (Inl e)
    with None assms show ?thesis by (simp add: get_formula_raise_db)
  next
    case (Inr r)
    with None assms ne show ?thesis
      by (simp add: get_formula_miss_db update_conv')
  qed
qed

lemma run_calls_keeps_entry:
  "map_of (formulas_db w) k = Some v \<Longrightarrow> run_calls E cs w = Some w' \<Longrightarrow>
   map_of (formulas_db w') k = Some v"
proof (induction cs arbitrary: w)
  case Nil
  then show ?case by simp
next
  case (Cons c cs)
  show ?case
  proof (cases c)
    case (Ask q)
    obtain r w1 where g: "get_formula E q w = (r, w1)" by (cases "get_formula E q w")
    with Cons.prems Ask obtain a where r: "r = Inr a" by (cases r) auto
    have "map_of (formulas_db w1) k = Some v"
      using get_formula_keeps_entry [OF Cons.prems(1), of E q] g by simp
    moreover have "run_calls E cs w1 = Some w'"
      using Cons.prems(2) Ask g r by simp
    ultimately show ?thesis by (rule Cons.IH)
  next
    case (Pdf f q)
    have "map_of (formulas_db (snd (query_pdf E f q w))) k = Some v"
      using Cons.prems(1) by (simp add: query_pdf_formulas_db)
    moreover have "run_calls E cs (snd (query_pdf E f q w)) = Some w'"
      using Cons.prems(2) Pdf by simp
    ultimately show ?thesis by (rule Cons.IH)
  next
    case ListFiles
    have "map_of (formulas_db (snd (list_files E w))) k = Some v"
      using Cons.prems(1) by (simp add: list_files_formulas_db)
    moreover have "run_calls E cs (snd (list_files E w)) = Some w'"
      using Cons.prems(2) ListFiles by simp
    ultimately show ?thesis by (rule Cons.IH)
  qed
qed

text \<open>
  Claim C3, as stated: once \<open>get_formula\<close> has completed for a query \<open>q\<close> that was not
  stored, every later call with a query equal to \<open>q\<close> up to letter case returns the
  stored answer under the database tag and sends no prompt to the model. It fails where
  lowercasing does not identify the two spellings. The query is the four characters
  U+0131, \<open>l\<close>, U+0131, \<open>k\<close> (a Turkish word written with the dotless i); its capitals,
  as \<open>str.upper\<close> gives them, are \<open>ILIK\<close>. But \<open>str.lower\<close> leaves the dotless i as it
  is and turns \<open>I\<close> into the dotted \<open>i\<close>: the keys differ, the second call is a miss, it
  returns under the new-formula tag and the model has been called twice.
\<close>

theorem dotless_i_counterexample:
  "upper_latin [305, 108, 305, 107] = asc ''ILIK''
   \<and> lower demo_env [305, 108, 305, 107] = [305, 108, 305, 107]
   \<and> lower demo_env (asc ''ILIK'') = asc ''ilik''
   \<and> map_of (formulas_db (start Absent)) (lower demo_env [305, 108, 305, 107]) = None
   \<and> fst (get_formula demo_env [305, 108, 305, 107] (start Absent)) =
       Inr (tag_new @ asc ''R = V/I'')
   \<and> fst (get_formula demo_env (asc ''ILIK'')
            (snd (get_formula demo_env [305, 108, 305, 107] (start Absent)))) =
       Inr (tag_new @ asc ''R = V/I'')
   \<and> length (model_calls (snd (get_formula demo_env (asc ''ILIK'')
            (snd (get_formula demo_env [305, 108, 305, 107] (start Absent)))))) = 2"
proof -
  have u: "upper_latin [305, 108, 305, 107] = asc ''ILIK''"
    by (simp add: upper_latin_def asc_def)
  have l1: "lower demo_env [305, 108, 305, 107] = [305, 108, 305, 107]"
    by (simp add: demo_env_def ascii_lower_def)
  have l2: "lower demo_env (asc ''ILIK'') = asc ''ilik''"
    by (simp add: demo_env_def ascii_lower_def asc_def)
  have g: "\<And>n p. generate demo_env n p = Inr (asc ''R = V/I'')"
    by (simp add: demo_env_def)
  have wo: "\<And>n. write_outcome demo_env n = WriteOk"
    by (simp add: demo_env_def)
  have db1: "formulas_db (snd (get_formula demo_env [305, 108, 305, 107] (start Absent))) =
               [([305, 108, 305, 107], PyStr (asc ''R = V/I''))]"
    by (simp add: get_formula_def Let_def l1 g wo write_json_def logging_def start_def)
  have mc1: "model_calls (snd (get_formula demo_env [305, 108, 305, 107] (start Absent))) =
               [formula_prompt [305, 108, 305, 107]]"
    by (simp add: get_formula_def Let_def l1 g wo write_json_def logging_def start_def)
  have f1: "fst (get_formula demo_env [305, 108, 305, 107] (start Absent)) =
              Inr (tag_new @ asc ''R = V/I'')"
    by (simp add: get_formula_def Let_def l1 g start_def)
  have miss2: "map_of (formulas_db (snd (get_formula demo_env [305, 108, 305, 107] (start Absent))))
                 (lower demo_env (asc ''ILIK'')) = None"
    by (simp add: db1 l2) (simp add: asc_def)
  have f2: "fst (get_formula demo_env (asc ''ILIK'')
              (snd (get_formula demo_env [305, 108, 305, 107] (start Absent)))) =
            Inr (tag_new @ asc ''R = V/I'')"
    using miss2 by (simp add: get_formula_def [of demo_env "asc ''ILIK''"] Let_def g)
  have n2: "length (model_calls (snd (get_formula demo_env (asc ''ILIK'')
              (snd (get_formula demo_env [305, 108, 305, 107] (start Absent)))))) = 2"
    using miss2
    by (simp add: get_formula_def [of demo_env "asc ''ILIK''"] Let_def g wo write_json_def
          logging_def mc1)
  show ?thesis
    using u l1 l2 f1 f2 n2 by (simp add: start_def)
qed

lemma equal_up_to_case_ascii_lower:
  assumes "equal_up_to_case s t"
  shows "ascii_lower s = ascii_lower t"
proof -
  have "list_all2 same_letter s t"
    using assms by (simp add: equal_up_to_case_def)
  then show ?thesis
    by (induction rule: list_all2_induct) (auto simp: ascii_lower_def same_letter_def)
qed

text \<open>
  Claim C3, amended. Once \<open>get_formula\<close> has completed for a query \<open>q\<close> that was not
  stored (the model answered \<open>r\<close>, returned under the new-formula tag), then after any
  further calls of the bot's methods that do not end the process, a call with any query
  \<open>q'\<close> whose lowercase form is that of \<open>q\<close> returns \<open>r\<close> under the database tag and
  sends no prompt to the model. That covers every \<open>q'\<close> equal to \<open>q\<close> up to the case of
  its ASCII letters, where \<open>str.lower\<close> acts on both as it does on ASCII text.
\<close>

theorem get_formula_cached_same_lowercase:
  assumes miss: "map_of (formulas_db w) (lower E q) = None"
    and gen: "generate E (length (model_calls w)) (formula_prompt q) = Inr r"
    and run: "run_calls E cs (snd (get_formula E q w)) = Some w2"
    and same: "lower E q' = lower E q
               \<or> (lower E q = ascii_lower q \<and> lower E q' = ascii_lower q'
                  \<and> equal_up_to_case q q')"
  shows "fst (get_formula E q w) = Inr (tag_new @ r)
         \<and> fst (get_formula E q' w2) = Inr (tag_database @ r)
         \<and> model_calls (snd (get_formula E q' w2)) = model_calls w2"
proof -
  have key: "lower E q' = lower E q"
    using same equal_up_to_case_ascii_lower [of q q'] by auto
  have first: "fst (get_formula E q w) = Inr (tag_new @ r)"
    using miss gen by (simp add: get_formula_def Let_def logging_def)
  have "map_of (formulas_db (snd (get_formula E q w))) (lower E q) = Some (PyStr r)"
    using miss gen by (simp add: get_formula_miss_db update_conv')
  then have "map_of (formulas_db w2) (lower E q) = Some (PyStr r)"
    using run by (rule run_calls_keeps_entry)
  then have hit: "map_of (formulas_db w2) (lower E q') = Some (PyStr r)"
    using key by simp
  have "fst (get_formula E q' w2) = Inr (tag_database @ r)
        \<and> model_calls (snd (get_formula E q' w2)) = model_calls w2"
    using hit by (simp add: get_formula_def Let_def logging_def py_str_def)
  with first show ?thesis by simp
qed

theorem get_formula_cached_same_lowercase_witness:
  "fst (get_formula demo_env (asc ''Ohm'') (start Absent)) = Inr (tag_new @ asc ''R = V/I'')
   \<and> fst (get_formula demo_env (asc ''OHM'')
            (the (run_calls demo_env [ListFiles, Ask (asc ''watt'')]
                    (snd (get_formula demo_env (asc ''Ohm'') (start Absent)))))) =
       Inr (tag_database @ asc ''R = V/I'')
   \<and> equal_up_to_case (asc ''Ohm'') (asc ''oHM'')
   \<and> fst (get_formula demo_env (asc ''oHM'')
            (the (run_calls demo_env [ListFiles, Ask (asc ''watt'')]
                    (snd (get_formula demo_env (asc ''Ohm'') (start Absent)))))) =
       Inr (tag_database @ asc ''R = V/I'')"
proof -
  let ?w1 = "snd (get_formula demo_env (asc ''Ohm'') (start Absent))"
  have m: "map_of (formulas_db (start Absent)) (lower demo_env (asc ''Ohm'')) = None"
    by (simp add: start_def)
  have g: "generate demo_env (length (model_calls (start Absent))) (formula_prompt (asc ''Ohm'')) =
             Inr (asc ''R = V/I'')"
    by (simp add: demo_env_def)
  have "run_calls demo_env [ListFiles, Ask (asc ''watt'')] ?w1 \<noteq> None"
    by (simp add: get_formula_def Let_def demo_env_def split: prod.splits option.splits)
  then have r: "run_calls demo_env [ListFiles, Ask (asc ''watt'')] ?w1 =
                  Some (the (run_calls demo_env [ListFiles, Ask (asc ''watt'')] ?w1))"
    by simp
  have l: "lower demo_env (asc ''OHM'') = lower demo_env (asc ''Ohm'')"
    by (simp add: demo_env_def ascii_lower_def asc_def)
  then have s1: "lower demo_env (asc ''OHM'') = lower demo_env (asc ''Ohm'')
                 \<or> (lower demo_env (asc ''Ohm'') = ascii_lower (asc ''Ohm'')
                    \<and> lower demo_env (asc ''OHM'') = ascii_lower (asc ''OHM'')
                    \<and> equal_up_to_case (asc ''Ohm'') (asc ''OHM''))"
    by simp
  have e: "equal_up_to_case (asc ''Ohm'') (asc ''oHM'')"
    by (simp add: equal_up_to_case_def same_letter_def asc_def)
  have d: "\<And>s. lower demo_env s = ascii_lower s"
    by (simp add: demo_env_def)
  have s2: "lower demo_env (asc ''oHM'') = lower demo_env (asc ''Ohm'')
            \<or> (lower demo_env (asc ''Ohm'') = ascii_lower (asc ''Ohm'')
               \<and> lower demo_env (asc ''oHM'') = ascii_lower (asc ''oHM'')
               \<and> equal_up_to_case (asc ''Ohm'') (asc ''oHM''))"
    using e d by simp
  show ?thesis
    using get_formula_cached_same_lowercase [OF m g r s1]
          get_formula_cached_same_lowercase [OF m g r s2] e
    by simp
qed


section \<open>PDF questions\<close>

lemma extract_loop_texts:
  "extract_loop i (map Text ts) acc = Inr (acc @ concat (take (10 - i) ts))"
proof (induction ts arbitrary: i acc)
  case Nil
  then show ?case by simp
next
  case (Cons t ts)
  show ?case
  proof (cases "i \<ge> 10")
    case True
    then show ?thesis by simp
  next
    case False
    then have "10 - i = Suc (10 - Suc i)" by simp
    then have "take (10 - i) (t # ts) = t # take (10 - Suc i) ts"
      by (simp only: take_Suc_Cons)
    with False Cons.IH [of "Suc i" "acc @ t"] show ?thesis by simp
  qed
qed

lemma take_as_pages: "take n xs = map ((!) xs) [0..<min (length xs) n]"
  by (rule nth_equalityI) auto

text \<open>
  Claim C4. When the file does not exist under the documents directory, or it opens and
  the texts of its first \<open>min(pageCount, 10)\<close> pages hold nothing but whitespace,
  \<open>query_pdf\<close> returns the corresponding error (not found, or empty or unreadable) and
  sends no prompt to the model.
\<close>

theorem query_pdf_failure_no_model_call:
  assumes "\<not> path_exists E (path_join (asc ''documents'') f)
           \<or> (fitz_open E (path_join (asc ''documents'') f) = Inr (map Text ts)
              \<and> list_all isspace (concat (take 10 ts)))"
  shows "fst (query_pdf E f q w) =
           (if path_exists E (path_join (asc ''documents'') f)
            then tag_error @ asc ''The document is empty or unreadable.''
            else tag_error @ asc ''File '' @ apos @ f @ apos @ asc '' not found.'')
         \<and> model_calls (snd (query_pdf E f q w)) = model_calls w"
proof (cases "path_exists E (path_join (asc ''documents'') f)")
  case False
  then show ?thesis
    by (simp add: query_pdf_def Let_def logging_def)
next
  case True
  with assms have op: "fitz_open E (path_join (asc ''documents'') f) = Inr (map Text ts)"
    and ws: "strip (concat (take 10 ts)) = []"
    by (simp_all add: strip_empty_iff)
  show ?thesis
    using True op ws
    by (simp add: query_pdf_def Let_def logging_def extract_loop_texts)
qed

lemma demo_paths:
  "path_join (asc ''documents'') (asc ''gone.pdf'') = asc ''documents/gone.pdf''"
  "path_join (asc ''documents'') (asc ''notes.pdf'') = asc ''documents/notes.pdf''"
  by (simp_all add: path_join_def startswith_def endswith_def asc_def)

theorem query_pdf_failure_no_model_call_witness:
  "fst (query_pdf demo_env (asc ''gone.pdf'') (asc ''what'') (start Absent)) =
     tag_error @ asc ''File '' @ apos @ asc ''gone.pdf'' @ apos @ asc '' not found.''
   \<and> model_calls (snd (query_pdf demo_env (asc ''gone.pdf'') (asc ''what'') (start Absent))) = []
   \<and> fst (query_pdf (demo_env\<lparr>fitz_open := \<lambda>p. Inr (map Text [asc ''  '', nl])\<rparr>)
            (asc ''notes.pdf'') (asc ''what'') (start Absent)) =
       tag_error @ asc ''The document is empty or unreadable.''
   \<and> model_calls (snd (query_pdf (demo_env\<lparr>fitz_open := \<lambda>p. Inr (map Text [asc ''  '', nl])\<rparr>)
            (asc ''notes.pdf'') (asc ''what'') (start Absent))) = []"
proof -
  let ?E = "demo_env\<lparr>fitz_open := \<lambda>p. Inr (map Text [asc ''  '', nl])\<rparr>"
  have a: "\<not> path_exists demo_env (path_join (asc ''documents'') (asc ''gone.pdf''))
           \<or> (fitz_open demo_env (path_join (asc ''documents'') (asc ''gone.pdf'')) = Inr (map Text [])
              \<and> list_all isspace (concat (take 10 [])))"
    by (simp add: demo_paths) (simp add: demo_env_def asc_def)
  have e: "path_exists ?E (path_join (asc ''documents'') (asc ''notes.pdf''))"
    by (simp add: demo_paths) (simp add: demo_env_def)
  have b: "\<not> path_exists ?E (path_join (asc ''documents'') (asc ''notes.pdf''))
           \<or> (fitz_open ?E (path_join (asc ''documents'') (asc ''notes.pdf'')) =
                Inr (map Text [asc ''  '', nl])
              \<and> list_all isspace (concat (take 10 [asc ''  '', nl])))"
    by (simp add: asc_def nl_def isspace_def)
  have ne: "\<not> path_exists demo_env (path_join (asc ''documents'') (asc ''gone.pdf''))"
    by (simp add: demo_paths) (simp add: demo_env_def asc_def)
  show ?thesis
    using query_pdf_failure_no_model_call [OF a, of "asc ''what''" "start Absent"]
          query_pdf_failure_no_model_call [OF b, of "asc ''what''" "start Absent"] e ne
    by (simp add: start_def)
qed

text \<open>
  Claim C5. When the file exists, opens, and the texts of its first pages hold a
  character that is not whitespace, \<open>query_pdf\<close> sends exactly one prompt to the model:
  the first 10,000 characters of the concatenation of the texts of pages \<open>0\<close> to
  \<open>min(pageCount, 10) - 1\<close> in page order, between the fixed instruction and the literal
  question. It returns the model's answer under the PDF tag (and, when the model raises,
  the error message under the error tag).
\<close>

theorem query_pdf_success_one_model_call:
  assumes ex: "path_exists E (path_join (asc ''documents'') f)"
    and op: "fitz_open E (path_join (asc ''documents'') f) = Inr (map Text ts)"
    and ne: "\<not> list_all isspace (concat (take 10 ts))"
  shows "model_calls (snd (query_pdf E f q w)) =
           model_calls w @
           [asc ''Answer based on this document:'' @ nl @
            take 10000 (concat (map ((!) ts) [0..<min (length ts) 10])) @ nl @ nl @
            asc ''Question: '' @ q @ nl @ asc ''Answer:'']
         \<and> fst (query_pdf E f q w) =
             (case generate E (length (model_calls w))
                     (asc ''Answer based on this document:'' @ nl @
                      take 10000 (concat (map ((!) ts) [0..<min (length ts) 10])) @ nl @ nl @
                      asc ''Question: '' @ q @ nl @ asc ''Answer:'') of
                Inr r \<Rightarrow> tag_pdf @ r
              | Inl e \<Rightarrow> tag_error @ exn_msg e)"
proof -
  have ns: "strip (concat (take 10 ts)) \<noteq> []"
    using ne by (simp add: strip_empty_iff)
  have pg: "concat (map ((!) ts) [0..<min (length ts) 10]) = concat (take 10 ts)"
    by (simp add: take_as_pages [symmetric])
  have "model_calls (snd (query_pdf E f q w)) =
          model_calls w @ [pdf_prompt (concat (take 10 ts)) q]
        \<and> fst (query_pdf E f q w) =
            (case generate E (length (model_calls w)) (pdf_prompt (concat (take 10 ts)) q) of
               Inr r \<Rightarrow> tag_pdf @ r
             | Inl e \<Rightarrow> tag_error @ exn_msg e)"
    using ex op ns
    by (simp add: query_pdf_def Let_def logging_def extract_loop_texts pdf_failed_def
             split: sum.splits)
  then show ?thesis
    by (simp add: pdf_prompt_def pg)
qed

theorem query_pdf_success_one_model_call_witness:
  "model_calls (snd (query_pdf demo_env (asc ''notes.pdf'') (asc ''what'') (start Absent))) =
     [asc ''Answer based on this document:'' @ nl @ asc ''Ohm: V = I R'' @ nl @ nl @
      asc ''Question: what'' @ nl @ asc ''Answer:'']
   \<and> fst (query_pdf demo_env (asc ''notes.pdf'') (asc ''what'') (start Absent)) =
       tag_pdf @ asc ''R = V/I''"
proof -
  have ex: "path_exists demo_env (path_join (asc ''documents'') (asc ''notes.pdf''))"
    by (simp add: demo_paths) (simp add: demo_env_def)
  have op: "fitz_open demo_env (path_join (asc ''documents'') (asc ''notes.pdf'')) =
              Inr (map Text [asc ''Ohm: V = I R''])"
    by (simp add: demo_env_def)
  have ne: "\<not> list_all isspace (concat (take 10 [asc ''Ohm: V = I R'']))"
    by (simp add: asc_def isspace_def)
  have gen: "\<And>n p. generate demo_env n p = Inr (asc ''R = V/I'')"
    by (simp add: demo_env_def)
  show ?thesis
    using query_pdf_success_one_model_call [OF ex op ne, of "asc ''what''" "start Absent"]
    by (simp add: gen) (simp add: start_def asc_def)
qed

section \<open>The command loop and the \<open>pdf\<close> command\<close>

text \<open>
  Claim C8, as stated: every line whose command word is \<open>pdf\<close> and which lacks a
  filename or a question gets the usage message. It fails on the line \<open>pdf\<close>: its only
  word is the command word, it has fewer than three parts, and the loop prints the
  invalid-command hint, not the usage message, because the dispatch tests for the
  prefix \<open>pdf\<close> followed by a space, which a stripped line of that one word lacks.
\<close>

theorem pdf_alone_counterexample:
  "lower demo_env (hd (split_ws 2 (strip (asc ''pdf'')))) = asc ''pdf''
   \<and> length (split_ws 2 (strip (asc ''pdf''))) < 3
   \<and> stdout (snd (step demo_env (asc ''pdf'') (start Absent))) = [msg_invalid]
   \<and> msg_invalid \<noteq> msg_usage"
proof -
  have s: "strip (asc ''pdf'') = asc ''pdf''"
    by (simp add: strip_def asc_def isspace_def)
  have sp: "split_ws 2 (asc ''pdf'') = [asc ''pdf'']"
    by (simp add: numeral_2_eq_2 asc_def isspace_def)
  have l: "ascii_lower (asc ''pdf'') = asc ''pdf''"
    by (simp add: ascii_lower_def asc_def)
  have st: "stdout (snd (step demo_env (asc ''pdf'') (start Absent))) = [msg_invalid]"
    by (simp add: step_def s Let_def demo_env_def l start_def logging_def print_def
          startswith_def)
       (simp add: asc_def)
  have ne: "msg_invalid \<noteq> msg_usage"
    by (simp add: msg_invalid_def msg_usage_def asc_def)
  show ?thesis
    using st ne by (simp add: s sp demo_env_def l)
qed

lemma pdf_prefix_not_other:
  assumes "take 3 c = asc ''pdf''"
  shows "c \<noteq> asc ''exit''" "c \<noteq> asc ''quit''" "c \<noteq> asc ''help''" "c \<noteq> asc ''list''"
    "\<not> startswith c (asc ''ask '')"
proof -
  show "c \<noteq> asc ''exit''" "c \<noteq> asc ''quit''" "c \<noteq> asc ''help''" "c \<noteq> asc ''list''"
    using assms by (auto simp: asc_def)
  show "\<not> startswith c (asc ''ask '')"
  proof
    assume a: "startswith c (asc ''ask '')"
    have len: "length (asc ''ask '') = 4"
      by (simp add: asc_def)
    from a have "take 4 c = asc ''ask ''"
      unfolding startswith_def len .
    then have "take 3 (take 4 c) = take 3 (asc ''ask '')"
      by simp
    then have "take 3 c = asc ''ask''"
      by (simp add: asc_def)
    with assms show False
      by (simp add: asc_def)
  qed
qed

text \<open>
  Claim C8, amended. For every non-blank line whose stripped, lowercased form begins with
  \<open>pdf\<close> (every line whose command word is \<open>pdf\<close>, whatever follows it) and which has
  fewer than three whitespace-separated parts: when \<open>pdf\<close> is followed by a space, the loop
  prints the usage message; otherwise (the word alone, or followed by a tab or another
  character) it prints the invalid-command hint. In every case the loop continues and
  makes no call of the orchestrator: no prompt is sent to the model, no PDF is opened,
  and the formula map and the file on disk are as before.
\<close>

theorem pdf_missing_arguments:
  assumes nonblank: "strip line \<noteq> []"
    and few: "length (split_ws 2 (strip line)) < 3"
    and cmd: "take 3 (lower E (strip line)) = asc ''pdf''"
  shows "fst (step E line w) = Continue
         \<and> stdout (snd (step E line w)) =
             stdout w @ [if startswith (lower E (strip line)) (asc ''pdf '')
                         then msg_usage else msg_invalid]
         \<and> model_calls (snd (step E line w)) = model_calls w
         \<and> opened (snd (step E line w)) = opened w
         \<and> formulas_db (snd (step E line w)) = formulas_db w
         \<and> disk (snd (step E line w)) = disk w"
proof -
  note no = pdf_prefix_not_other [OF cmd]
  show ?thesis
  proof (cases "startswith (lower E (strip line)) (asc ''pdf '')")
    case True
    then show ?thesis
      using nonblank few no
      by (simp add: step_def Let_def logging_def print_def)
  next
    case False
    then show ?thesis
      using nonblank no
      by (simp add: step_def Let_def logging_def print_def)
  qed
qed

theorem pdf_missing_arguments_witness:
  "fst (step demo_env (asc ''PDF notes.pdf'') (start Absent)) = Continue
   \<and> stdout (snd (step demo_env (asc ''PDF notes.pdf'') (start Absent))) = [msg_usage]
   \<and> model_calls (snd (step demo_env (asc ''PDF notes.pdf'') (start Absent))) = []
   \<and> opened (snd (step demo_env (asc ''PDF notes.pdf'') (start Absent))) = []
   \<and> fst (step demo_env (asc ''pdf'' @ [9] @ asc ''notes.pdf'') (start Absent)) = Continue
   \<and> stdout (snd (step demo_env (asc ''pdf'' @ [9] @ asc ''notes.pdf'') (start Absent))) =
       [msg_invalid]
   \<and> model_calls (snd (step demo_env (asc ''pdf'' @ [9] @ asc ''notes.pdf'') (start Absent))) = []
   \<and> opened (snd (step demo_env (asc ''pdf'' @ [9] @ asc ''notes.pdf'') (start Absent))) = []"
proof -
  let ?a = "asc ''PDF notes.pdf''"
  let ?b = "asc ''pdf'' @ [9] @ asc ''notes.pdf''"
  have na: "strip ?a \<noteq> []" and nb: "strip ?b \<noteq> []"
    by (simp_all add: strip_def asc_def isspace_def)
  have fa: "length (split_ws 2 (strip ?a)) < 3" and fb: "length (split_ws 2 (strip ?b)) < 3"
    by (simp_all add: strip_def numeral_2_eq_2 asc_def isspace_def)
  have ca: "take 3 (lower demo_env (strip ?a)) = asc ''pdf''"
    and cb: "take 3 (lower demo_env (strip ?b)) = asc ''pdf''"
    by (simp_all add: strip_def demo_env_def ascii_lower_def asc_def isspace_def)
  have swa: "startswith (lower demo_env (strip ?a)) (asc ''pdf '')"
    and swb: "\<not> startswith (lower demo_env (strip ?b)) (asc ''pdf '')"
    by (simp_all add: strip_def demo_env_def ascii_lower_def startswith_def asc_def isspace_def)
  show ?thesis
    using pdf_missing_arguments [OF na fa ca, of "start Absent"]
          pdf_missing_arguments [OF nb fb cb, of "start Absent"] swa swb
    by (simp add: start_def)
qed

end
